theory Spec2Isabelle
  imports Complex_Main "HOL-Library.Sublist"
begin

section \<open>JavaScript values used by the player\<close>

text \<open>
  JavaScript numbers that carry times and tick counts are modelled as rationals (the
  engine only delivers finite values); the results of \<^verbatim>\<open>Math.floor\<close> and
  \<^verbatim>\<open>Math.round\<close> are integers. A number that comes out of \<^verbatim>\<open>parseInt\<close> is an
  integer or \<^verbatim>\<open>NaN\<close>. An optional property is an \<open>option\<close> (\<open>None\<close> is
  \<^verbatim>\<open>undefined\<close>); \<open>DisplayTitle\<close>, typed \<^verbatim>\<open>string | null | undefined\<close>, keeps
  \<^verbatim>\<open>null\<close> and \<^verbatim>\<open>undefined\<close> apart because \<^verbatim>\<open>===\<close> and \<^verbatim>\<open>Set\<close> do.
\<close>

type_synonym number = rat

datatype jsint = NaN | Num int

datatype 'a nullable = Undefined | Null | Val 'a

text \<open>An object on the JavaScript heap: its reference and its contents. Equality of
  such pairs is the reference equality that \<^verbatim>\<open>indexOf\<close> uses on objects.\<close>

type_synonym 'a obj = "nat \<times> 'a"

definition Math_floor :: "number \<Rightarrow> int" where
  "Math_floor x = \<lfloor>x\<rfloor>"

definition Math_round :: "number \<Rightarrow> int" where
  "Math_round x = \<lfloor>x + 1 / 2\<rfloor>"

definition truthy_string :: "string option \<Rightarrow> bool" where
  "truthy_string s = (case s of None \<Rightarrow> False | Some v \<Rightarrow> v \<noteq> [])"

definition truthy_int :: "int option \<Rightarrow> bool" where
  "truthy_int n = (case n of None \<Rightarrow> False | Some v \<Rightarrow> v \<noteq> 0)"

definition truthy_jsint :: "jsint option \<Rightarrow> bool" where
  "truthy_jsint n = (case n of Some (Num v) \<Rightarrow> v \<noteq> 0 | _ \<Rightarrow> False)"

definition truthy_bool :: "bool option \<Rightarrow> bool" where
  "truthy_bool b = (b = Some True)"

text \<open>\<^verbatim>\<open>parseInt(s, 10)\<close>: leading white space is skipped, one sign is read, then the
  longest run of decimal digits; without a digit the result is \<^verbatim>\<open>NaN\<close>. A string is
  a list of 8-bit code units here, so the white space is the ASCII white space and the
  no-break space; the Unicode white space beyond code unit 255 cannot occur. The value is
  the exact integer, where JavaScript rounds a run of digits beyond \<open>2^53\<close> to the
  nearest double.\<close>

definition is_space :: "char \<Rightarrow> bool" where
  "is_space c =
     (c \<in> set [CHR '' '', CHR 0x09, CHR 0x0A, CHR 0x0B, CHR 0x0C, CHR 0x0D, CHR 0xA0])"

definition is_digit :: "char \<Rightarrow> bool" where
  "is_digit c = (c \<in> set ''0123456789'')"

definition digit_val :: "char \<Rightarrow> int" where
  "digit_val c = int (of_char c) - 48"

definition digits_val :: "string \<Rightarrow> int" where
  "digits_val ds = foldl (\<lambda>acc c. 10 * acc + digit_val c) 0 ds"

definition parse_digits :: "string \<Rightarrow> jsint" where
  "parse_digits s =
     (let ds = takeWhile is_digit s in if ds = [] then NaN else Num (digits_val ds))"

definition negate :: "jsint \<Rightarrow> jsint" where
  "negate n = (case n of NaN \<Rightarrow> NaN | Num v \<Rightarrow> Num (- v))"

definition parseInt :: "string \<Rightarrow> jsint" where
  "parseInt s =
     (case dropWhile is_space s of
        [] \<Rightarrow> NaN
      | c # cs \<Rightarrow>
          if c = CHR ''-'' then negate (parse_digits cs)
          else if c = CHR ''+'' then parse_digits cs
          else parse_digits (c # cs))"

text \<open>\<^verbatim>\<open>String.prototype.includes\<close>.\<close>

fun String_includes :: "string \<Rightarrow> string \<Rightarrow> bool" where
  "String_includes [] p = (p = [])"
| "String_includes (c # cs) p = (take (length p) (c # cs) = p \<or> String_includes cs p)"

text \<open>\<^verbatim>\<open>Array.from(new Set(xs))\<close>: a \<^verbatim>\<open>Set\<close> keeps its elements in insertion order and
  ignores the insertion of an element it already holds.\<close>

definition Set_add :: "'a list \<Rightarrow> 'a \<Rightarrow> 'a list" where
  "Set_add acc x = (if x \<in> set acc then acc else acc @ [x])"

definition Array_from_Set :: "'a list \<Rightarrow> 'a list" where
  "Array_from_Set xs = foldl Set_add [] xs"

text \<open>\<^verbatim>\<open>Array.prototype.indexOf\<close>: the position of the first equal element, or -1.\<close>

fun indexOf_from :: "int \<Rightarrow> 'a list \<Rightarrow> 'a \<Rightarrow> int" where
  "indexOf_from i [] x = - 1"
| "indexOf_from i (y # ys) x = (if y = x then i else indexOf_from (i + 1) ys x)"

definition indexOf :: "'a list \<Rightarrow> 'a \<Rightarrow> int" where
  "indexOf xs x = indexOf_from 0 xs x"

text \<open>Modelled from the spec: \<^verbatim>\<open>secondsToTicks\<close> is imported from
  \<^verbatim>\<open>@/utils/secondsToTicks\<close>, which is not among the sources; the glossary fixes
  10,000,000 ticks to the second.\<close>

definition secondsToTicks :: "number \<Rightarrow> number" where
  "secondsToTicks seconds = seconds * 10000000"


section \<open>Data transfer objects\<close>

datatype MediaStreamType = Audio | Video | Subtitle | EmbeddedImage | Data | Lyric

record MediaStream =
  Type :: "MediaStreamType option"
  Index :: "int option"
  DisplayTitle :: "string nullable"
  IsTextSubtitleStream :: "bool option"

record MediaSourceInfo =
  MediaStreams :: "MediaStream obj list option"
  SupportsDirectPlay :: "bool option"

record UserItemDataDto =
  PlaybackPositionTicks :: "int option"

record BaseItemDto =
  Id' :: "string option"
  Name :: "string option"
  AlbumArtist :: "string option"
  Overview :: "string option"
  Album :: "string option"
  UserData :: "UserItemDataDto option"
  CanDownload :: "bool option"

text \<open>\<^verbatim>\<open>item?.UserData?.PlaybackPositionTicks\<close>.\<close>

definition item_PlaybackPositionTicks :: "BaseItemDto option \<Rightarrow> int option" where
  "item_PlaybackPositionTicks item =
     (case item of None \<Rightarrow> None
      | Some i \<Rightarrow> (case UserData i of None \<Rightarrow> None | Some u \<Rightarrow> PlaybackPositionTicks u))"

text \<open>\<^verbatim>\<open>item?.Id\<close>.\<close>

definition item_Id :: "BaseItemDto option \<Rightarrow> string option" where
  "item_Id item = (case item of None \<Rightarrow> None | Some i \<Rightarrow> Id' i)"


section \<open>The video source and its start position\<close>

record VideoMetadata =
  artist :: "string option"
  title :: string
  description :: "string option"
  imageUri :: "string option"
  subtitle :: "string option"

record VideoSource =
  uri :: string
  isNetwork :: bool
  startPosition :: int
  metadata :: VideoMetadata

text \<open>\<^verbatim>\<open>useVideoSource\<close> of the transcoding player. The api client only matters by its
  presence; the authentication headers it contributes are left out of the record.\<close>

definition useVideoSource ::
  "BaseItemDto option \<Rightarrow> bool \<Rightarrow> string option \<Rightarrow> string option \<Rightarrow> VideoSource option" where
  "useVideoSource item api poster url =
     (case (item, url) of
        (Some i, Some u) \<Rightarrow>
          if \<not> api \<or> u = [] then None
          else Some \<lparr>
            uri = u,
            isNetwork = True,
            startPosition =
              (if truthy_int (item_PlaybackPositionTicks item)
               then (case item_PlaybackPositionTicks item of
                       Some t \<Rightarrow> Math_round (of_int t / 10000) | None \<Rightarrow> 0)
               else 0),
            metadata = \<lparr>
              artist = AlbumArtist i,
              title = (if truthy_string (Name i)
                       then (case Name i of Some n \<Rightarrow> n | None \<Rightarrow> ''Unknown'')
                       else ''Unknown''),
              description = Overview i,
              imageUri = poster,
              subtitle = Album i \<rparr> \<rparr>
      | _ \<Rightarrow> None)"

text \<open>\<^verbatim>\<open>startPosition\<close> of \<^verbatim>\<open>components/VideoPlayer.tsx\<close>:
  \<^verbatim>\<open>Math.round((item?.UserData?.PlaybackPositionTicks || 0) / 10000)\<close>.\<close>

definition VideoPlayer_startPosition :: "BaseItemDto option \<Rightarrow> int" where
  "VideoPlayer_startPosition item =
     Math_round (of_int (if truthy_int (item_PlaybackPositionTicks item)
                         then (case item_PlaybackPositionTicks item of Some t \<Rightarrow> t | None \<Rightarrow> 0)
                         else 0) / 10000)"


section \<open>The subtitle track catalog\<close>

text \<open>\<^verbatim>\<open>stream?.mediaSource.MediaStreams?.filter(...) || []\<close>, given the media source of
  the resolved stream if there is one.\<close>

definition textSubs :: "MediaSourceInfo option \<Rightarrow> MediaStream obj list" where
  "textSubs src =
     (case src of
        None \<Rightarrow> []
      | Some m \<Rightarrow>
          (case MediaStreams m of
             None \<Rightarrow> []
           | Some streams \<Rightarrow>
               filter (\<lambda>sub. Type (snd sub) = Some Subtitle
                            \<and> truthy_bool (IsTextSubtitleStream (snd sub))) streams))"

definition uniqueTextSubs :: "MediaSourceInfo option \<Rightarrow> MediaStream obj option list" where
  "uniqueTextSubs src =
     map (\<lambda>t. List.find (\<lambda>sub. DisplayTitle (snd sub) = t) (textSubs src))
       (Array_from_Set (map (\<lambda>sub. DisplayTitle (snd sub)) (textSubs src)))"

text \<open>The catalog in the words of the specification: walking the streams in source
  order, a stream is kept and every later stream with its display title is dropped.\<close>

fun firstByTitle :: "MediaStream obj list \<Rightarrow> MediaStream obj list" where
  "firstByTitle [] = []"
| "firstByTitle (s # ss) =
     s # firstByTitle (filter (\<lambda>u. DisplayTitle (snd u) \<noteq> DisplayTitle (snd s)) ss)"

abbreviation titleOf :: "MediaStream obj \<Rightarrow> string nullable" where
  "titleOf sub \<equiv> DisplayTitle (snd sub)"


section \<open>The player component\<close>

text \<open>
  What a render of the component hands to the callbacks it creates: the api client (by
  its presence), the item and stream query results, and the launch parameters. A
  callback sees the values of the render that created it: \<^verbatim>\<open>togglePlay\<close> and
  \<^verbatim>\<open>onProgress\<close> are created again whenever one of these values changes, while
  \<^verbatim>\<open>play\<close> (dependencies \<^verbatim>\<open>[videoRef]\<close>) and the focus effect (dependencies
  \<^verbatim>\<open>[]\<close>) keep the callbacks of the first render. So every operation below takes the
  captured render as its first argument, and the theorems hold whichever render that is.
  The component state a callback reads (\<^verbatim>\<open>isPlaying\<close>, \<^verbatim>\<open>isPlaybackStopped\<close>) is
  listed in its dependencies, and an effect reads the state of the render it runs in;
  both are read from the current state, as are the refs and shared values.
\<close>

record StreamData =
  url :: string
  sessionId :: string
  mediaSource :: MediaSourceInfo

record env =
  api :: bool
  item :: "BaseItemDto option"
  stream :: "StreamData option"
  audioIndexStr :: "string option"
  subtitleIndexStr :: "string option"
  mediaSourceIdParam :: "string option"

text \<open>\<^verbatim>\<open>audioIndexStr ? parseInt(audioIndexStr, 10) : undefined\<close>.\<close>

definition launchIndex :: "string option \<Rightarrow> jsint option" where
  "launchIndex s = (if truthy_string s then map_option parseInt s else None)"

definition audioIndex :: "env \<Rightarrow> jsint option" where
  "audioIndex e = launchIndex (audioIndexStr e)"

definition subtitleIndex :: "env \<Rightarrow> jsint option" where
  "subtitleIndex e = launchIndex (subtitleIndexStr e)"

text \<open>\<^verbatim>\<open>audioIndex ? audioIndex : undefined\<close>.\<close>

definition forwardIndex :: "jsint option \<Rightarrow> int option" where
  "forwardIndex n =
     (if truthy_jsint n then (case n of Some (Num v) \<Rightarrow> Some v | _ \<Rightarrow> None) else None)"

datatype PlayMethod = Transcode | DirectStream

text \<open>\<^verbatim>\<open>stream?.url.includes("m3u8") ? "Transcode" : "DirectStream"\<close>.\<close>

definition playMethodOf :: "env \<Rightarrow> PlayMethod" where
  "playMethodOf e =
     (case stream e of
        None \<Rightarrow> DirectStream
      | Some s \<Rightarrow> if String_includes (url s) ''m3u8'' then Transcode else DirectStream)"

datatype report_kind = OnPlaybackStart | OnPlaybackProgress | OnPlaybackStopped

record report =
  kind :: report_kind
  itemId :: "string option"
  audioStreamIndex :: "int option"
  subtitleStreamIndex :: "int option"
  mediaSourceId :: "string option"
  positionTicks :: "int option"
  isPaused :: "bool option"
  playMethod :: "PlayMethod option"
  playSessionId :: "string option"

text \<open>What the component does to the outside: commands to the playback engine, requests
  to the play-state service, and the text track it hands to the engine.\<close>

datatype effect =
    EngineResume
  | EnginePause
  | EngineSeek number
  | Report report
  | SelectTextTrack int

record OnProgressData =
  currentTime :: number
  playableDuration :: number

record TextTrack =
  trackIndex :: int
  trackLanguage :: "string option"
  trackTitle :: "string option"

text \<open>The refs, shared values and state of the component, and the effects so far.
  \<open>videoRef\<close> tells whether \<^verbatim>\<open>videoRef.current\<close> is attached.\<close>

record player =
  videoRef :: bool
  firstTime :: bool
  isPlaybackStopped :: bool
  isPlaying :: bool
  isBuffering :: bool
  progress :: number
  isSeeking :: bool
  cacheProgress :: number
  selectedTextTrack :: "int option"
  embededTextTracks :: "TextTrack list"
  trace :: "effect list"

definition initial :: player where
  "initial = \<lparr> videoRef = False, firstTime = True, isPlaybackStopped = False,
     isPlaying = False, isBuffering = True, progress = 0, isSeeking = False,
     cacheProgress = 0, selectedTextTrack = None, embededTextTracks = [], trace = [] \<rparr>"

text \<open>\<^verbatim>\<open>videoRef.current?.resume()\<close> and its siblings: nothing happens without an engine.\<close>

definition engine :: "effect \<Rightarrow> player \<Rightarrow> player" where
  "engine c st = (if videoRef st then st\<lparr>trace := trace st @ [c]\<rparr> else st)"

text \<open>\<^verbatim>\<open>getPlaystateApi(api!).onPlayback...(r)\<close>: without an api client the call throws
  inside the asynchronous function before any request is made.\<close>

definition playstateApi :: "env \<Rightarrow> report \<Rightarrow> player \<Rightarrow> player" where
  "playstateApi e r st = (if api e then st\<lparr>trace := trace st @ [Report r]\<rparr> else st)"

definition progressReport :: "env \<Rightarrow> int \<Rightarrow> bool \<Rightarrow> report" where
  "progressReport e ticks paused = \<lparr>
     kind = OnPlaybackProgress,
     itemId = item_Id (item e),
     audioStreamIndex = forwardIndex (audioIndex e),
     subtitleStreamIndex = forwardIndex (subtitleIndex e),
     mediaSourceId = mediaSourceIdParam e,
     positionTicks = Some ticks,
     isPaused = Some paused,
     playMethod = Some (playMethodOf e),
     playSessionId = map_option sessionId (stream e) \<rparr>"

definition togglePlay :: "env \<Rightarrow> number \<Rightarrow> player \<Rightarrow> player" where
  "togglePlay e ticks st =
     (if isPlaying st
      then playstateApi e (progressReport e (Math_floor ticks) True) (engine EnginePause st)
      else playstateApi e (progressReport e (Math_floor ticks) False) (engine EngineResume st))"

definition startReport :: "env \<Rightarrow> report" where
  "startReport e = \<lparr>
     kind = OnPlaybackStart,
     itemId = item_Id (item e),
     audioStreamIndex = forwardIndex (audioIndex e),
     subtitleStreamIndex = forwardIndex (subtitleIndex e),
     mediaSourceId = mediaSourceIdParam e,
     positionTicks = None,
     isPaused = None,
     playMethod = Some (playMethodOf e),
     playSessionId = map_option sessionId (stream e) \<rparr>"

definition reportPlaybackStart :: "env \<Rightarrow> player \<Rightarrow> player" where
  "reportPlaybackStart e st =
     (if \<not> truthy_string (item_Id (item e)) then st else playstateApi e (startReport e) st)"

definition play :: "env \<Rightarrow> player \<Rightarrow> player" where
  "play e st = reportPlaybackStart e (engine EngineResume st)"

definition pause :: "player \<Rightarrow> player" where
  "pause st = engine EnginePause st"

definition seek :: "number \<Rightarrow> player \<Rightarrow> player" where
  "seek seconds st = engine (EngineSeek seconds) st"

text \<open>The stopped report carries the floored local position. The revalidation of the
  progress cache that follows the awaited request touches neither the player nor the
  play-state service and is left out.\<close>

definition stoppedReport :: "env \<Rightarrow> player \<Rightarrow> report" where
  "stoppedReport e st = \<lparr>
     kind = OnPlaybackStopped,
     itemId = item_Id (item e),
     audioStreamIndex = None,
     subtitleStreamIndex = None,
     mediaSourceId = mediaSourceIdParam e,
     positionTicks = Some (Math_floor (progress st)),
     isPaused = None,
     playMethod = None,
     playSessionId = map_option sessionId (stream e) \<rparr>"

definition reportPlaybackStopped :: "env \<Rightarrow> player \<Rightarrow> player" where
  "reportPlaybackStopped e st =
     (if \<not> truthy_string (item_Id (item e)) then st
      else playstateApi e (stoppedReport e st) st)"

definition stop :: "env \<Rightarrow> player \<Rightarrow> player" where
  "stop e st = reportPlaybackStopped e (engine EnginePause (st\<lparr>isPlaybackStopped := True\<rparr>))"

definition onProgress :: "env \<Rightarrow> OnProgressData \<Rightarrow> player \<Rightarrow> player" where
  "onProgress e d st =
     (if isSeeking st then st
      else if isPlaybackStopped st then st
      else
        let ticks = secondsToTicks (currentTime d);
            st' = st\<lparr>progress := ticks,
                     cacheProgress := secondsToTicks (playableDuration d),
                     isBuffering := (playableDuration d = 0)\<rparr>
        in if \<not> truthy_string (item_Id (item e)) \<or> currentTime d = 0 then st'
           else playstateApi e (progressReport e (Math_round ticks) (\<not> isPlaying st)) st')"

definition onLoad :: "env \<Rightarrow> player \<Rightarrow> player" where
  "onLoad e st = (if firstTime st then (play e st)\<lparr>firstTime := False\<rparr> else st)"

definition onPlaybackStateChanged :: "bool \<Rightarrow> player \<Rightarrow> player" where
  "onPlaybackStateChanged playing st = (if \<not> isSeeking st then st\<lparr>isPlaying := playing\<rparr> else st)"

definition onBuffer :: "bool \<Rightarrow> player \<Rightarrow> player" where
  "onBuffer buffering st = st\<lparr>isBuffering := buffering\<rparr>"


subsection \<open>Initial subtitle selection\<close>

text \<open>\<^verbatim>\<open>sub.Index === subtitleIndex\<close> between an optional number and the parsed launch
  parameter.\<close>

definition indexMatches :: "int option \<Rightarrow> jsint option \<Rightarrow> bool" where
  "indexMatches i n =
     (case (i, n) of
        (None, None) \<Rightarrow> True
      | (Some a, Some (Num b)) \<Rightarrow> a = b
      | _ \<Rightarrow> False)"

definition streamSource :: "env \<Rightarrow> MediaSourceInfo option" where
  "streamSource e = map_option mediaSource (stream e)"

definition chosenSubtitleTrack :: "env \<Rightarrow> MediaStream obj option" where
  "chosenSubtitleTrack e =
     List.find (\<lambda>sub. indexMatches (Index (snd sub)) (subtitleIndex e)) (textSubs (streamSource e))"

definition setSelectedTextTrack :: "int \<Rightarrow> player \<Rightarrow> player" where
  "setSelectedTextTrack v st =
     st\<lparr>selectedTextTrack := Some v, trace := trace st @ [SelectTextTrack v]\<rparr>"

text \<open>The body of the effect that depends on \<^verbatim>\<open>embededTextTracks\<close>.\<close>

definition initialTextTrack :: "env \<Rightarrow> player \<Rightarrow> player" where
  "initialTextTrack e st =
     (case chosenSubtitleTrack e of
        None \<Rightarrow> st
      | Some c \<Rightarrow>
          if selectedTextTrack st = None
          then setSelectedTextTrack (indexOf (uniqueTextSubs (streamSource e)) (Some c)) st
          else st)"

text \<open>A track-discovery event stores the engine's tracks (a fresh array each time), the
  component renders again and the effect runs in that render.\<close>

definition onTextTracks :: "env \<Rightarrow> TextTrack list \<Rightarrow> player \<Rightarrow> player" where
  "onTextTracks e tracks st = initialTextTrack e (st\<lparr>embededTextTracks := tracks\<rparr>)"


subsection \<open>Events of a session\<close>

text \<open>
  \<open>Play\<close>, \<open>Pause\<close>, \<open>Seek\<close> and \<open>TogglePlay\<close> come from the controls, \<open>Stop\<close> is a call
  of \<^verbatim>\<open>stop\<close>, the \<open>Remote\<close> events come from the web socket, \<open>Focus\<close> and
  \<open>Unfocus\<close> are the focus effect and its cleanup, \<open>Mount\<close> is the first run of the
  subtitle effect after the first render, \<open>SetSeeking\<close> is the controls writing the
  shared \<^verbatim>\<open>isSeeking\<close> value, \<open>Attach\<close> is the engine mounting or unmounting; the
  others are callbacks of the engine.
\<close>

datatype event =
    Play | Pause | Seek number | TogglePlay number | Stop
  | RemotePlay | RemotePause | RemoteStop
  | Focus | Unfocus | Mount
  | Load | Progress OnProgressData | PlaybackStateChanged bool | Buffer bool
  | TextTracks "TextTrack list" | SetSubtitleTrack int
  | SetSeeking bool | Attach bool

fun step :: "env \<Rightarrow> event \<Rightarrow> player \<Rightarrow> player" where
  "step e Play st = play e st"
| "step e Pause st = pause st"
| "step e (Seek seconds) st = seek seconds st"
| "step e (TogglePlay ticks) st = togglePlay e ticks st"
| "step e Stop st = stop e st"
| "step e RemotePlay st = play e st"
| "step e RemotePause st = pause st"
| "step e RemoteStop st = stop e st"
| "step e Focus st = play e st"
| "step e Unfocus st = stop e st"
| "step e Mount st = initialTextTrack e st"
| "step e Load st = onLoad e st"
| "step e (Progress d) st = onProgress e d st"
| "step e (PlaybackStateChanged playing) st = onPlaybackStateChanged playing st"
| "step e (Buffer buffering) st = onBuffer buffering st"
| "step e (TextTracks tracks) st = onTextTracks e tracks st"
| "step e (SetSubtitleTrack i) st = setSelectedTextTrack i st"
| "step e (SetSeeking b) st = st\<lparr>isSeeking := b\<rparr>"
| "step e (Attach b) st = st\<lparr>videoRef := b\<rparr>"

text \<open>A session is a list of events, each with the render its callback captured.\<close>

fun run :: "(env \<times> event) list \<Rightarrow> player \<Rightarrow> player" where
  "run [] st = st"
| "run ((e, ev) # evs) st = run evs (step e ev st)"

definition is_report :: "report_kind \<Rightarrow> effect \<Rightarrow> bool" where
  "is_report k f = (case f of Report r \<Rightarrow> kind r = k | _ \<Rightarrow> False)"

text \<open>The number of reports of a kind sent so far.\<close>

definition sent :: "report_kind \<Rightarrow> player \<Rightarrow> nat" where
  "sent k st = length (filter (is_report k) (trace st))"

definition is_stop_call :: "event \<Rightarrow> bool" where
  "is_stop_call ev = (ev = Stop \<or> ev = RemoteStop \<or> ev = Unfocus)"

definition is_play_call :: "event \<Rightarrow> bool" where
  "is_play_call ev = (ev = Play \<or> ev = RemotePlay \<or> ev = Focus)"

definition is_pause_call :: "event \<Rightarrow> bool" where
  "is_pause_call ev = (ev = Pause \<or> ev = RemotePause)"

text \<open>The render has the item (with an id) and the api client.\<close>

definition loaded :: "env \<Rightarrow> bool" where
  "loaded e = (api e \<and> truthy_string (item_Id (item e)))"

text \<open>An effect is a stopped report, or a report that carries the launch indices \<open>a\<close>
  and \<open>s\<close> the way \<^verbatim>\<open>audioIndex ? audioIndex : undefined\<close> forwards them, or no report.\<close>

definition indices_ok :: "string option \<Rightarrow> string option \<Rightarrow> effect \<Rightarrow> bool" where
  "indices_ok a s f =
     (case f of
        Report r \<Rightarrow>
          kind r = OnPlaybackStopped
          \<or> audioStreamIndex r = forwardIndex (launchIndex a)
            \<and> subtitleStreamIndex r = forwardIndex (launchIndex s)
      | _ \<Rightarrow> True)"


section \<open>The download button\<close>

record PlaybackInfoResponse =
  MediaSources :: "MediaSourceInfo list option"

text \<open>The error thrown with the message
  \<^verbatim>\<open>Direct play not supported thus the file cannot be downloaded\<close>.\<close>

datatype download_error = NotDownloadable

text \<open>The application around the button: the player of the running session, whatever
  its state, and the calls of \<^verbatim>\<open>downloadMedia\<close> made so far.\<close>

record app =
  playback :: player
  downloadMedia :: "BaseItemDto list"

text \<open>\<^verbatim>\<open>playbackInfo.MediaSources?.[0]\<close>.\<close>

definition firstSource :: "PlaybackInfoResponse \<Rightarrow> MediaSourceInfo option" where
  "firstSource info =
     (case MediaSources info of None \<Rightarrow> None | Some [] \<Rightarrow> None | Some (s # _) \<Rightarrow> Some s)"

definition sourceSupportsDirectPlay :: "MediaSourceInfo option \<Rightarrow> bool" where
  "sourceSupportsDirectPlay src =
     (case src of None \<Rightarrow> False | Some s \<Rightarrow> truthy_bool (SupportsDirectPlay s))"

definition downloadFile ::
  "PlaybackInfoResponse option \<Rightarrow> BaseItemDto \<Rightarrow> app \<Rightarrow> download_error option \<times> app" where
  "downloadFile playbackInfo it a =
     (case playbackInfo of
        None \<Rightarrow> (None, a)
      | Some info \<Rightarrow>
          if sourceSupportsDirectPlay (firstSource info) \<and> truthy_bool (CanDownload it)
          then (None, a\<lparr>downloadMedia := downloadMedia a @ [it]\<rparr>)
          else (Some NotDownloadable, a))"


section \<open>A concrete session\<close>

text \<open>An item half-way through, a transcoded stream with two subtitle streams called
  English, a commentary track and an image subtitle, launched with audio index 0 and
  subtitle index -1.\<close>

definition item0 :: BaseItemDto where
  "item0 = \<lparr> Id' = Some ''item-1'', Name = Some ''Feature'', AlbumArtist = None,
     Overview = None, Album = None,
     UserData = Some \<lparr> PlaybackPositionTicks = Some 1200000000 \<rparr>,
     CanDownload = Some False \<rparr>"

definition textSub :: "int \<Rightarrow> string \<Rightarrow> MediaStream" where
  "textSub i t = \<lparr> Type = Some Subtitle, Index = Some i, DisplayTitle = Val t,
     IsTextSubtitleStream = Some True \<rparr>"

definition source0 :: MediaSourceInfo where
  "source0 = \<lparr> MediaStreams = Some
       [ (0, \<lparr> Type = Some Video, Index = Some 0, DisplayTitle = Val ''1080p H264'',
               IsTextSubtitleStream = Some False \<rparr>),
         (1, \<lparr> Type = Some Audio, Index = Some 1, DisplayTitle = Val ''English'',
               IsTextSubtitleStream = Some False \<rparr>),
         (2, textSub 2 ''English''),
         (3, textSub 3 ''English''),
         (4, textSub 4 ''Director's Commentary''),
         (5, \<lparr> Type = Some Subtitle, Index = Some 5, DisplayTitle = Val ''English'',
               IsTextSubtitleStream = Some False \<rparr>) ],
     SupportsDirectPlay = Some True \<rparr>"

definition stream0 :: StreamData where
  "stream0 = \<lparr> url = ''http://host/videos/item-1/master.m3u8'', sessionId = ''session-1'',
     mediaSource = source0 \<rparr>"

definition env0 :: env where
  "env0 = \<lparr> api = True, item = Some item0, stream = Some stream0,
     audioIndexStr = Some ''0'', subtitleIndexStr = Some ''-1'',
     mediaSourceIdParam = Some ''source-1'' \<rparr>"

text \<open>The first render of that session when the item is already in the query cache and
  the stream is not resolved yet: what \<^verbatim>\<open>play\<close> and the focus effect capture.\<close>

definition firstRender :: env where
  "firstRender = env0 \<lparr> stream := None \<rparr>"

text \<open>The same launch with subtitle index 3, the second stream called English.\<close>

definition env3 :: env where
  "env3 = env0 \<lparr> subtitleIndexStr := Some ''3'' \<rparr>"

text \<open>The player once the engine is mounted.\<close>

definition playing0 :: player where
  "playing0 = initial \<lparr> videoRef := True \<rparr>"

definition sample5 :: OnProgressData where
  "sample5 = \<lparr> currentTime = 5, playableDuration = 30 \<rparr>"

definition zeroSample :: OnProgressData where
  "zeroSample = \<lparr> currentTime = 0, playableDuration = 30 \<rparr>"

definition app0 :: app where
  "app0 = \<lparr> playback = playing0, downloadMedia = [] \<rparr>"

definition info0 :: PlaybackInfoResponse where
  "info0 = \<lparr> MediaSources = Some [source0] \<rparr>"


section \<open>Arithmetic and list facts\<close>

lemma Math_round_div: "Math_round (of_int t / 10000) = (t + 5000) div 10000"
proof -
  have "(of_int t / 10000 + 1 / 2 :: rat) = of_int (t + 5000) / of_int 10000"
    by (simp add: field_simps)
  then have "Math_round (of_int t / 10000) = \<lfloor>(of_int (t + 5000) / of_int 10000 :: rat)\<rfloor>"
    by (simp only: Math_round_def)
  also have "\<dots> = (t + 5000) div 10000"
    by (rule floor_divide_of_int_eq)
  finally show ?thesis .
qed

lemma Math_round_of_int: "Math_round (of_int n) = n"
  unfolding Math_round_def by (rule floor_unique) simp_all

lemma Math_round_numeral: "Math_round (numeral k) = numeral k"
  using Math_round_of_int [of "numeral k"] by simp


lemma foldl_Set_add_acc:
  "foldl Set_add acc xs = acc @ foldl Set_add [] (filter (\<lambda>x. x \<notin> set acc) xs)"
proof (induction "length xs" arbitrary: xs acc rule: less_induct)
  case less
  show ?case
  proof (cases xs)
    case Nil
    then show ?thesis by simp
  next
    case (Cons y ys)
    show ?thesis
    proof (cases "y \<in> set acc")
      case True
      then show ?thesis using less [of ys acc] Cons by (simp add: Set_add_def)
    next
      case False
      let ?zs = "filter (\<lambda>x. x \<notin> set acc) ys"
      have step: "foldl Set_add acc xs = foldl Set_add (acc @ [y]) ys"
        using False Cons by (simp add: Set_add_def)
      have left: "foldl Set_add (acc @ [y]) ys
                    = (acc @ [y]) @ foldl Set_add [] (filter (\<lambda>x. x \<notin> set (acc @ [y])) ys)"
        using less [of ys "acc @ [y]"] Cons by simp
      have same: "filter (\<lambda>x. x \<notin> set (acc @ [y])) ys = filter (\<lambda>x. x \<notin> set [y]) ?zs"
        by (auto intro: filter_cong)
      have right: "foldl Set_add [y] ?zs = [y] @ foldl Set_add [] (filter (\<lambda>x. x \<notin> set [y]) ?zs)"
        using less [of ?zs "[y]"] Cons by (simp add: le_imp_less_Suc)
      have "foldl Set_add [] (filter (\<lambda>x. x \<notin> set acc) xs) = foldl Set_add [y] ?zs"
        using False Cons by (simp add: Set_add_def)
      then show ?thesis
        unfolding step left same right by simp
    qed
  qed
qed

lemma Array_from_Set_Cons:
  "Array_from_Set (x # xs) = x # Array_from_Set (filter (\<lambda>y. y \<noteq> x) xs)"
proof -
  have "Array_from_Set (x # xs) = foldl Set_add [x] xs"
    by (simp add: Array_from_Set_def Set_add_def)
  also have "\<dots> = [x] @ foldl Set_add [] (filter (\<lambda>y. y \<notin> set [x]) xs)"
    by (rule foldl_Set_add_acc)
  finally show ?thesis by (simp add: Array_from_Set_def)
qed

lemma Array_from_Set_Nil: "Array_from_Set [] = []"
  by (simp add: Array_from_Set_def)

lemma set_foldl_Set_add: "set (foldl Set_add acc xs) = set acc \<union> set xs"
  by (induction xs arbitrary: acc) (auto simp: Set_add_def)

lemma set_Array_from_Set: "set (Array_from_Set xs) = set xs"
  by (simp add: Array_from_Set_def set_foldl_Set_add)

lemma find_filter_other_title:
  "t \<noteq> d \<Longrightarrow> List.find (\<lambda>u. titleOf u = t) (filter (\<lambda>u. titleOf u \<noteq> d) ss)
      = List.find (\<lambda>u. titleOf u = t) ss"
  by (induction ss) auto

lemma catalog_refines:
  "map (\<lambda>t. List.find (\<lambda>u. titleOf u = t) xs) (Array_from_Set (map titleOf xs))
     = map Some (firstByTitle xs)"
proof (induction xs rule: firstByTitle.induct)
  case 1
  then show ?case by (simp add: Array_from_Set_Nil)
next
  case (2 s ss)
  let ?ss' = "filter (\<lambda>u. titleOf u \<noteq> titleOf s) ss"
  have titles: "filter (\<lambda>y. y \<noteq> titleOf s) (map titleOf ss) = map titleOf ?ss'"
    by (simp add: filter_map comp_def)
  have "map (\<lambda>t. List.find (\<lambda>u. titleOf u = t) (s # ss)) (Array_from_Set (map titleOf ?ss'))
          = map (\<lambda>t. List.find (\<lambda>u. titleOf u = t) ?ss') (Array_from_Set (map titleOf ?ss'))"
  proof (rule map_cong [OF refl])
    fix t assume "t \<in> set (Array_from_Set (map titleOf ?ss'))"
    then have "t \<noteq> titleOf s" by (auto simp: set_Array_from_Set)
    then show "List.find (\<lambda>u. titleOf u = t) (s # ss) = List.find (\<lambda>u. titleOf u = t) ?ss'"
      by (simp add: find_filter_other_title)
  qed
  then show ?case using "2.IH" by (simp add: Array_from_Set_Cons titles)
qed

lemma set_firstByTitle: "set (firstByTitle xs) \<subseteq> set xs"
  by (induction xs rule: firstByTitle.induct) auto

lemma subseq_firstByTitle: "subseq (firstByTitle xs) xs"
proof (induction xs rule: firstByTitle.induct)
  case 1
  then show ?case by simp
next
  case (2 s ss)
  have "subseq (filter (\<lambda>u. titleOf u \<noteq> titleOf s) ss) ss" by simp
  with "2.IH" have "subseq (firstByTitle (filter (\<lambda>u. titleOf u \<noteq> titleOf s) ss)) ss"
    by (rule subseq_order.trans)
  then show ?case by simp
qed

lemma titles_firstByTitle: "titleOf ` set (firstByTitle xs) = titleOf ` set xs"
  by (induction xs rule: firstByTitle.induct) auto

lemma distinct_titles_firstByTitle: "distinct (map titleOf (firstByTitle xs))"
proof (induction xs rule: firstByTitle.induct)
  case 1
  then show ?case by simp
next
  case (2 s ss)
  have "titleOf s \<notin> titleOf ` set (firstByTitle (filter (\<lambda>u. titleOf u \<noteq> titleOf s) ss))"
    by (auto simp: titles_firstByTitle)
  with "2.IH" show ?case by simp
qed

lemma firstByTitle_is_first:
  "s \<in> set (firstByTitle xs) \<Longrightarrow> List.find (\<lambda>u. titleOf u = titleOf s) xs = Some s"
proof (induction xs rule: firstByTitle.induct)
  case 1
  then show ?case by simp
next
  case (2 x xs)
  show ?case
  proof (cases "s = x")
    case True
    then show ?thesis by simp
  next
    case False
    with "2.prems" have mem: "s \<in> set (firstByTitle (filter (\<lambda>u. titleOf u \<noteq> titleOf x) xs))"
      by simp
    then have "s \<in> set (filter (\<lambda>u. titleOf u \<noteq> titleOf x) xs)"
      using set_firstByTitle by blast
    then have ne: "titleOf s \<noteq> titleOf x" by simp
    from "2.IH" [OF mem] ne show ?thesis by (simp add: find_filter_other_title)
  qed
qed

lemma indexOf_from_mem:
  "x \<in> set xs \<Longrightarrow>
   i \<le> indexOf_from i xs x \<and> indexOf_from i xs x < i + int (length xs)
   \<and> xs ! nat (indexOf_from i xs x - i) = x"
proof (induction xs arbitrary: i)
  case Nil
  then show ?case by simp
next
  case (Cons y ys)
  show ?case
  proof (cases "y = x")
    case True
    then show ?thesis by simp
  next
    case False
    with Cons.prems have "x \<in> set ys" by simp
    from Cons.IH [OF this, of "i + 1"]
    have ih: "i + 1 \<le> indexOf_from (i + 1) ys x"
      "indexOf_from (i + 1) ys x < i + 1 + int (length ys)"
      "ys ! nat (indexOf_from (i + 1) ys x - (i + 1)) = x"
      by simp_all
    from ih(1) have "nat (indexOf_from (i + 1) ys x - i) = Suc (nat (indexOf_from (i + 1) ys x - (i + 1)))"
      by linarith
    with ih False show ?thesis by simp
  qed
qed

lemma indexOf_mem:
  "x \<in> set xs \<Longrightarrow> 0 \<le> indexOf xs x \<and> nat (indexOf xs x) < length xs \<and> xs ! nat (indexOf xs x) = x"
  using indexOf_from_mem [of x xs 0] by (auto simp: indexOf_def)


section \<open>Counting reports\<close>

lemma sent_append:
  "sent k (st\<lparr>trace := trace st @ [f]\<rparr>) = sent k st + (if is_report k f then 1 else 0)"
  by (simp add: sent_def)

lemma sent_engine:
  "\<not> is_report k c \<Longrightarrow> sent k (engine c st) = sent k st"
  by (simp add: engine_def sent_def)

lemma sent_playstateApi:
  "sent k (playstateApi e r st) = sent k st + (if api e \<and> kind r = k then 1 else 0)"
  by (simp add: playstateApi_def sent_def is_report_def)

lemma not_report_engine [simp]:
  "\<not> is_report k EngineResume" "\<not> is_report k EnginePause" "\<not> is_report k (EngineSeek x)"
  "\<not> is_report k (SelectTextTrack i)"
  by (simp_all add: is_report_def)

lemma sent_update [simp]:
  "sent k (st\<lparr>isPlaybackStopped := b\<rparr>) = sent k st"
  "sent k (st\<lparr>firstTime := b\<rparr>) = sent k st"
  "sent k (st\<lparr>isPlaying := b\<rparr>) = sent k st"
  "sent k (st\<lparr>isBuffering := b\<rparr>) = sent k st"
  "sent k (st\<lparr>isSeeking := b\<rparr>) = sent k st"
  "sent k (st\<lparr>videoRef := b\<rparr>) = sent k st"
  "sent k (st\<lparr>progress := x\<rparr>) = sent k st"
  "sent k (st\<lparr>cacheProgress := x\<rparr>) = sent k st"
  "sent k (st\<lparr>embededTextTracks := ts\<rparr>) = sent k st"
  "sent k (st\<lparr>selectedTextTrack := sel\<rparr>) = sent k st"
  by (simp_all add: sent_def)

lemma kind_reports [simp]:
  "kind (startReport e) = OnPlaybackStart"
  "kind (stoppedReport e st) = OnPlaybackStopped"
  "kind (progressReport e t p) = OnPlaybackProgress"
  by (simp_all add: startReport_def stoppedReport_def progressReport_def)

lemma sent_play:
  "sent k (play e st) = sent k st + (if loaded e \<and> k = OnPlaybackStart then 1 else 0)"
  by (auto simp: play_def reportPlaybackStart_def sent_playstateApi sent_engine loaded_def)

lemma sent_pause: "sent k (pause st) = sent k st"
  by (simp add: pause_def sent_engine)

lemma sent_seek: "sent k (seek x st) = sent k st"
  by (simp add: seek_def sent_engine)

lemma sent_stop:
  "sent k (stop e st) = sent k st + (if loaded e \<and> k = OnPlaybackStopped then 1 else 0)"
  by (auto simp: stop_def reportPlaybackStopped_def sent_playstateApi sent_engine loaded_def)

lemma sent_togglePlay:
  "sent k (togglePlay e t st) = sent k st + (if api e \<and> k = OnPlaybackProgress then 1 else 0)"
  by (auto simp: togglePlay_def sent_playstateApi sent_engine)

lemma sent_onProgress:
  "sent k (onProgress e d st) = sent k st +
     (if \<not> isSeeking st \<and> \<not> isPlaybackStopped st \<and> loaded e \<and> currentTime d \<noteq> 0
         \<and> k = OnPlaybackProgress then 1 else 0)"
  by (auto simp: onProgress_def Let_def sent_playstateApi loaded_def)

lemma sent_onLoad:
  "sent k (onLoad e st) = sent k st + (if firstTime st \<and> loaded e \<and> k = OnPlaybackStart then 1 else 0)"
  by (auto simp: onLoad_def sent_play)

lemma sent_setSelectedTextTrack: "sent k (setSelectedTextTrack v st) = sent k st"
  by (simp add: setSelectedTextTrack_def sent_def)

lemma sent_initialTextTrack: "sent k (initialTextTrack e st) = sent k st"
  by (simp add: initialTextTrack_def sent_setSelectedTextTrack split: option.splits)

lemma sent_onTextTracks: "sent k (onTextTracks e ts st) = sent k st"
  by (simp add: onTextTracks_def sent_initialTextTrack)

lemma sent_stopped_step:
  "sent OnPlaybackStopped (step e ev st)
     = sent OnPlaybackStopped st + (if is_stop_call ev \<and> loaded e then 1 else 0)"
  by (cases ev)
     (simp_all add: is_stop_call_def sent_play sent_pause sent_seek sent_stop sent_togglePlay
        sent_onProgress sent_onLoad sent_setSelectedTextTrack sent_onTextTracks
        sent_initialTextTrack
        onPlaybackStateChanged_def onBuffer_def)

lemma sent_start_step:
  "is_play_call ev \<or> is_pause_call ev \<Longrightarrow>
   sent OnPlaybackStart (step e ev st)
     = sent OnPlaybackStart st + (if is_play_call ev \<and> loaded e then 1 else 0)"
  by (cases ev) (simp_all add: is_play_call_def is_pause_call_def sent_play sent_pause)

lemma loaded_env0: "loaded env0"
  by (simp add: loaded_def env0_def item0_def item_Id_def truthy_string_def)

lemma loaded_firstRender: "loaded firstRender"
  by (simp add: loaded_def firstRender_def env0_def item0_def item_Id_def truthy_string_def)

lemmas handler_defs =
  play_def pause_def seek_def stop_def togglePlay_def onProgress_def onLoad_def
  onPlaybackStateChanged_def onBuffer_def onTextTracks_def initialTextTrack_def
  setSelectedTextTrack_def reportPlaybackStart_def reportPlaybackStopped_def
  playstateApi_def engine_def startReport_def stoppedReport_def progressReport_def
  sent_def is_report_def loaded_def item_Id_def truthy_string_def

lemmas session_defs = env0_def firstRender_def item0_def stream0_def playing0_def initial_def

lemmas parse_defs = launchIndex_def parseInt_def parse_digits_def negate_def digits_val_def
  digit_val_def is_space_def is_digit_def truthy_string_def truthy_jsint_def forwardIndex_def
  audioIndex_def subtitleIndex_def

lemma stopped_step: "isPlaybackStopped st \<Longrightarrow> isPlaybackStopped (step e ev st)"
  by (cases ev)
     (simp_all add: handler_defs Let_def split: option.splits)

lemma stopped_stop_call: "is_stop_call ev \<Longrightarrow> isPlaybackStopped (step e ev st)"
  by (cases ev) (simp_all add: is_stop_call_def handler_defs)

lemma stopped_run: "isPlaybackStopped st \<Longrightarrow> isPlaybackStopped (run evs st)"
proof (induction evs arbitrary: st)
  case Nil
  then show ?case by simp
next
  case (Cons x evs)
  obtain e ev where x: "x = (e, ev)" by (cases x)
  show ?case using Cons by (simp add: x stopped_step)
qed

lemma stopped_after_stop_call:
  "\<exists>(e, ev) \<in> set evs. is_stop_call ev \<Longrightarrow> isPlaybackStopped (run evs st)"
proof (induction evs arbitrary: st)
  case Nil
  then show ?case by simp
next
  case (Cons x evs)
  obtain e ev where x: "x = (e, ev)" by (cases x)
  show ?case
  proof (cases "is_stop_call ev")
    case True
    then show ?thesis by (simp add: x stopped_stop_call stopped_run)
  next
    case False
    with Cons.prems x have "\<exists>(e, ev) \<in> set evs. is_stop_call ev" by simp
    then show ?thesis using Cons.IH by (simp add: x)
  qed
qed


subsection \<open>What single operations do\<close>

lemma trace_stop:
  "\<exists>r. kind r = OnPlaybackStopped \<and>
       trace (stop e st) = trace st @ (if videoRef st then [EnginePause] else [])
                             @ (if loaded e then [Report r] else [])"
  by (rule exI [of _ "stoppedReport e (engine EnginePause (st\<lparr>isPlaybackStopped := True\<rparr>))"])
     (simp add: stop_def reportPlaybackStopped_def playstateApi_def engine_def loaded_def)

lemma trace_play:
  "trace (play e st) = trace st @ (if videoRef st then [EngineResume] else [])
                         @ (if loaded e then [Report (startReport e)] else [])"
  by (simp add: play_def reportPlaybackStart_def playstateApi_def engine_def loaded_def)

lemma pause_only_engine:
  "pause st = st\<lparr>trace := trace st @ (if videoRef st then [EnginePause] else [])\<rparr>"
  by (simp add: pause_def engine_def)

lemma stop_call_step: "is_stop_call ev \<Longrightarrow> step e ev st = stop e st"
  by (cases ev) (simp_all add: is_stop_call_def)

lemma play_call_step: "is_play_call ev \<Longrightarrow> step e ev st = play e st"
  by (cases ev) (simp_all add: is_play_call_def)

lemma pause_call_step: "is_pause_call ev \<Longrightarrow> step e ev st = pause st"
  by (cases ev) (simp_all add: is_pause_call_def)

lemma onProgress_stopped: "isPlaybackStopped st \<Longrightarrow> onProgress e d st = st"
  by (simp add: onProgress_def)




lemma stopped_flag_only_progress:
  "(\<forall>d. ev \<noteq> Progress d) \<Longrightarrow>
   (step e ev (st\<lparr>isPlaybackStopped := b\<rparr>))\<lparr>isPlaybackStopped := c\<rparr>
     = (step e ev st)\<lparr>isPlaybackStopped := c\<rparr>"
  by (cases ev) (simp_all add: handler_defs Let_def split: option.splits)

lemma play_keeps_stopped: "isPlaybackStopped (play e st) = isPlaybackStopped st"
  by (simp add: play_def reportPlaybackStart_def playstateApi_def engine_def)

lemma onLoad_first: "firstTime st \<Longrightarrow> onLoad e st = (play e st)\<lparr>firstTime := False\<rparr>"
  by (simp add: onLoad_def)

lemma onLoad_later: "\<not> firstTime st \<Longrightarrow> onLoad e st = st"
  by (simp add: onLoad_def)


subsection \<open>Indices in reports\<close>

lemma forwardIndex_Some: "(forwardIndex n = Some v) = (n = Some (Num v) \<and> v \<noteq> 0)"
  by (auto simp: forwardIndex_def truthy_jsint_def split: option.splits jsint.splits)

lemma indices_ok_step:
  assumes "audioIndexStr e = a" "subtitleIndexStr e = s" "list_all (indices_ok a s) (trace st)"
  shows "list_all (indices_ok a s) (trace (step e ev st))"
  using assms
  by (cases ev)
     (simp_all add: play_def pause_def seek_def stop_def togglePlay_def onProgress_def onLoad_def
        onPlaybackStateChanged_def onBuffer_def onTextTracks_def initialTextTrack_def
        setSelectedTextTrack_def reportPlaybackStart_def reportPlaybackStopped_def
        playstateApi_def engine_def startReport_def stoppedReport_def progressReport_def
        indices_ok_def audioIndex_def subtitleIndex_def Let_def split: option.splits)

lemma indices_ok_run:
  assumes "\<forall>(e, ev) \<in> set evs. audioIndexStr e = a \<and> subtitleIndexStr e = s"
    and "list_all (indices_ok a s) (trace st)"
  shows "list_all (indices_ok a s) (trace (run evs st))"
  using assms
proof (induction evs arbitrary: st)
  case Nil
  then show ?case by simp
next
  case (Cons x evs)
  obtain e ev where x: "x = (e, ev)" by (cases x)
  from Cons.prems x have here: "audioIndexStr e = a" "subtitleIndexStr e = s" by simp_all
  from Cons.prems have rest: "\<forall>(e, ev) \<in> set evs. audioIndexStr e = a \<and> subtitleIndexStr e = s"
    by simp
  have "list_all (indices_ok a s) (trace (step e ev st))"
    using here Cons.prems(2) by (rule indices_ok_step)
  from Cons.IH [OF rest this] show ?case by (simp add: x)
qed

lemma initialTextTrack_selected:
  "selectedTextTrack st \<noteq> None \<Longrightarrow> initialTextTrack e st = st"
  by (auto simp: initialTextTrack_def split: option.splits)

lemma discovery_after_selection:
  assumes "\<forall>(e', ev) \<in> set evs. \<exists>ts. ev = TextTracks ts" and "selectedTextTrack st = Some v"
  shows "selectedTextTrack (run evs st) = Some v \<and> trace (run evs st) = trace st"
  using assms
proof (induction evs arbitrary: st)
  case Nil
  then show ?case by simp
next
  case (Cons x evs)
  obtain e' ev where x: "x = (e', ev)" by (cases x)
  from Cons.prems x obtain ts where ev: "ev = TextTracks ts" by auto
  from Cons.prems have rest: "\<forall>(e', ev) \<in> set evs. \<exists>ts. ev = TextTracks ts" by simp
  have st': "step e' ev st = st\<lparr>embededTextTracks := ts\<rparr>"
    using Cons.prems(2) by (simp add: ev onTextTracks_def initialTextTrack_selected)
  have "selectedTextTrack (step e' ev st) = Some v" using Cons.prems(2) by (simp add: st')
  from Cons.IH [OF rest this] show ?case by (simp add: x st')
qed

lemma textSubs_source0:
  "textSubs (Some source0)
     = [(2, textSub 2 ''English''), (3, textSub 3 ''English''),
        (4, textSub 4 ''Director's Commentary'')]"
  by (simp add: textSubs_def source0_def textSub_def truthy_bool_def)

lemma uniqueTextSubs_source0:
  "uniqueTextSubs (Some source0)
     = [Some (2, textSub 2 ''English''), Some (4, textSub 4 ''Director's Commentary'')]"
  by (simp add: uniqueTextSubs_def textSubs_source0 Array_from_Set_def Set_add_def textSub_def)


section \<open>Stop reports\<close>

text \<open>
  C1. The specification asks for exactly one "stopped" report however often \<^verbatim>\<open>stop\<close> is
  called, gated by a latch. In the code no latch gates the report: every call of
  \<^verbatim>\<open>stop\<close>, be it direct, a remote command or the cleanup of the focus effect, sets
  \<^verbatim>\<open>isPlaybackStopped\<close>, pauses the engine when one is attached, and sends one "stopped"
  report when the render its callback captured has the item and the api client, and none
  otherwise. So over any session, whatever the interleaving of events, the number of
  "stopped" reports sent is the number of such calls. The flag, once set, stays set, and
  while it is set a progress callback changes nothing.
\<close>

theorem stop_reports_every_call:
  "(\<exists>r. kind r = OnPlaybackStopped \<and>
        trace (stop e st) = trace st @ (if videoRef st then [EnginePause] else [])
                              @ (if loaded e then [Report r] else []))
   \<and> isPlaybackStopped (stop e st)
   \<and> (is_stop_call ev \<longrightarrow> step e ev st = stop e st)
   \<and> sent OnPlaybackStopped (run evs st)
       = sent OnPlaybackStopped st + length (filter (\<lambda>(e, ev). is_stop_call ev \<and> loaded e) evs)
   \<and> (isPlaybackStopped st \<or> (\<exists>(e, ev) \<in> set evs. is_stop_call ev)
        \<longrightarrow> isPlaybackStopped (run evs st))
   \<and> (isPlaybackStopped st \<longrightarrow> onProgress e d st = st)"
proof -
  have count: "sent OnPlaybackStopped (run evs st)
     = sent OnPlaybackStopped st + length (filter (\<lambda>(e, ev). is_stop_call ev \<and> loaded e) evs)"
  proof (induction evs arbitrary: st)
    case Nil
    then show ?case by simp
  next
    case (Cons x evs)
    obtain e ev where x: "x = (e, ev)" by (cases x)
    show ?case using Cons.IH [of "step e ev st"] by (simp add: x sent_stopped_step)
  qed
  have flag: "isPlaybackStopped st \<or> (\<exists>(e, ev) \<in> set evs. is_stop_call ev)
        \<longrightarrow> isPlaybackStopped (run evs st)"
    using stopped_run stopped_after_stop_call by blast
  have set: "isPlaybackStopped (stop e st)"
    by (simp add: stop_def reportPlaybackStopped_def playstateApi_def engine_def)
  from trace_stop [of e st] set stop_call_step [of ev e st] count flag
    onProgress_stopped [of st e d]
  show ?thesis by blast
qed

text \<open>A remote stop command and then the cleanup of the focus effect, two calls of
  \<^verbatim>\<open>stop\<close>, send two reports.\<close>

theorem stop_twice_counterexample:
  "sent OnPlaybackStopped (run [(env0, RemoteStop), (firstRender, Unfocus)] playing0) = 2"
  by (simp add: handler_defs session_defs)

text \<open>A remote stop, a progress sample and the cleanup: two reports, the flag is set,
  and the progress sample after the stop changes nothing.\<close>

theorem stop_reports_every_call_witness:
  "loaded env0 \<and> loaded firstRender \<and> is_stop_call RemoteStop \<and> is_stop_call Unfocus
   \<and> step firstRender Unfocus playing0 = stop firstRender playing0
   \<and> sent OnPlaybackStopped
        (run [(env0, RemoteStop), (env0, Progress sample5), (firstRender, Unfocus)] playing0)
       = sent OnPlaybackStopped playing0 + 2
   \<and> isPlaybackStopped
        (run [(env0, RemoteStop), (env0, Progress sample5), (firstRender, Unfocus)] playing0)
   \<and> isPlaybackStopped (stop env0 playing0)
   \<and> onProgress env0 sample5 (stop env0 playing0) = stop env0 playing0"
  using stop_reports_every_call
      [where e = firstRender and st = playing0 and ev = Unfocus
         and evs = "[(env0, RemoteStop), (env0, Progress sample5), (firstRender, Unfocus)]"]
    stop_reports_every_call
      [where e = env0 and st = "stop env0 playing0" and d = sample5 and evs = "[]"]
    stop_reports_every_call [where e = env0 and st = playing0 and evs = "[]"]
  by (simp add: loaded_env0 loaded_firstRender is_stop_call_def)


section \<open>Start reports\<close>

text \<open>
  C2. The specification asks for exactly one "start" report per session. In the code
  every call of \<^verbatim>\<open>play\<close>, from the controls, a remote command or the focus effect,
  resumes the engine when one is attached and sends one "start" report when the render
  its callback captured has the item and the api client; \<^verbatim>\<open>pause\<close> pauses the
  engine when one is attached and does nothing else. So over any sequence of \<^verbatim>\<open>play\<close> and \<^verbatim>\<open>pause\<close> calls the number of
  "start" reports sent is the number of such \<^verbatim>\<open>play\<close> calls. Only the engine's load
  callback is gated: the first time it calls \<^verbatim>\<open>play\<close> and clears \<^verbatim>\<open>firstTime\<close>,
  afterwards it does nothing.
\<close>

theorem start_reports_every_play:
  assumes "\<forall>(e, ev) \<in> set evs. is_play_call ev \<or> is_pause_call ev"
  shows "trace (play e' st) = trace st @ (if videoRef st then [EngineResume] else [])
                                @ (if loaded e' then [Report (startReport e')] else [])
   \<and> pause st = st\<lparr>trace := trace st @ (if videoRef st then [EnginePause] else [])\<rparr>
   \<and> (is_play_call ev' \<longrightarrow> step e' ev' st = play e' st)
   \<and> (is_pause_call ev' \<longrightarrow> step e' ev' st = pause st)
   \<and> sent OnPlaybackStart (run evs st)
       = sent OnPlaybackStart st + length (filter (\<lambda>(e, ev). is_play_call ev \<and> loaded e) evs)
   \<and> (firstTime st \<longrightarrow> onLoad e' st = (play e' st)\<lparr>firstTime := False\<rparr>)
   \<and> (\<not> firstTime st \<longrightarrow> onLoad e' st = st)"
proof -
  have count: "sent OnPlaybackStart (run evs st)
     = sent OnPlaybackStart st + length (filter (\<lambda>(e, ev). is_play_call ev \<and> loaded e) evs)"
    using assms
  proof (induction evs arbitrary: st)
    case Nil
    then show ?case by simp
  next
    case (Cons x evs)
    obtain e ev where x: "x = (e, ev)" by (cases x)
    from Cons.prems x have ev: "is_play_call ev \<or> is_pause_call ev" by simp
    from Cons.prems have rest: "\<forall>(e, ev) \<in> set evs. is_play_call ev \<or> is_pause_call ev" by simp
    show ?case using Cons.IH [OF rest, of "step e ev st"] sent_start_step [OF ev, of e st]
      by (simp add: x)
  qed
  from trace_play [of e' st] pause_only_engine [of st] play_call_step [of ev' e' st]
    pause_call_step [of ev' e' st] count onLoad_first [of st e'] onLoad_later [of st e']
  show ?thesis by blast
qed

text \<open>Play, pause, play: two start reports.\<close>

theorem play_twice_counterexample:
  "sent OnPlaybackStart
     (run [(firstRender, Play), (firstRender, Pause), (firstRender, Play)] playing0) = 2"
  by (simp add: handler_defs session_defs)

text \<open>The focus effect, a pause, and two more plays: three start reports; the load
  callback plays once.\<close>

theorem start_reports_every_play_witness:
  "is_play_call Focus \<and> is_pause_call Pause \<and> is_play_call Play \<and> is_play_call RemotePlay
   \<and> loaded firstRender \<and> videoRef playing0 \<and> firstTime playing0
   \<and> trace (play firstRender playing0) = [EngineResume, Report (startReport firstRender)]
   \<and> sent OnPlaybackStart
        (run [(firstRender, Focus), (firstRender, Pause), (firstRender, Play),
              (firstRender, RemotePlay)] playing0)
       = sent OnPlaybackStart playing0 + 3
   \<and> onLoad firstRender playing0 = (play firstRender playing0)\<lparr>firstTime := False\<rparr>
   \<and> onLoad firstRender (onLoad firstRender playing0) = onLoad firstRender playing0"
proof -
  let ?evs = "[(firstRender, Focus), (firstRender, Pause), (firstRender, Play),
               (firstRender, RemotePlay)]"
  have h: "\<forall>(e, ev) \<in> set ?evs. is_play_call ev \<or> is_pause_call ev"
    by (simp add: is_play_call_def is_pause_call_def)
  have h0: "\<forall>(e, ev) \<in> set ([] :: (env \<times> event) list). is_play_call ev \<or> is_pause_call ev"
    by simp
  have first: "firstTime playing0" and ref: "videoRef playing0" and tr: "trace playing0 = []"
    by (simp_all add: playing0_def initial_def)
  have later: "\<not> firstTime (onLoad firstRender playing0)"
    by (simp add: onLoad_def)
  show ?thesis
    using start_reports_every_play [OF h, where st = playing0 and e' = firstRender]
      start_reports_every_play [OF h0, where st = "onLoad firstRender playing0" and e' = firstRender]
    by (simp add: loaded_firstRender is_play_call_def is_pause_call_def first ref tr later)
qed


section \<open>Progress samples\<close>




text \<open>
  C4. A progress sample with \<^verbatim>\<open>currentTime == 0\<close> never sends a report. Unless the
  session is seeking or stopped, it is still recorded: the local position becomes 0,
  whatever it was, and the cache progress and the buffering flag follow the sample.
\<close>

theorem zero_sample_not_reported:
  "currentTime d = 0 \<Longrightarrow>
   trace (onProgress e d st) = trace st
   \<and> (\<not> isSeeking st \<and> \<not> isPlaybackStopped st \<longrightarrow>
        progress (onProgress e d st) = 0
        \<and> cacheProgress (onProgress e d st) = secondsToTicks (playableDuration d)
        \<and> isBuffering (onProgress e d st) = (playableDuration d = 0))"
  by (simp add: onProgress_def Let_def secondsToTicks_def)

text \<open>Five seconds into playback, a zero sample sets the position back to 0.\<close>

theorem zero_sample_counterexample:
  "progress (playing0\<lparr>progress := 50000000\<rparr>) = 50000000
   \<and> progress (onProgress env0 zeroSample (playing0\<lparr>progress := 50000000\<rparr>)) = 0"
  by (simp add: handler_defs session_defs zeroSample_def secondsToTicks_def)

text \<open>The zero sample after five seconds of playback: no report, position 0.\<close>

theorem zero_sample_not_reported_witness:
  "currentTime zeroSample = 0
   \<and> \<not> isSeeking (playing0\<lparr>progress := 50000000\<rparr>)
   \<and> \<not> isPlaybackStopped (playing0\<lparr>progress := 50000000\<rparr>)
   \<and> trace (onProgress env0 zeroSample (playing0\<lparr>progress := 50000000\<rparr>)) = []
   \<and> progress (onProgress env0 zeroSample (playing0\<lparr>progress := 50000000\<rparr>)) = 0"
proof -
  have h: "currentTime zeroSample = 0" by (simp add: zeroSample_def)
  show ?thesis
    using h zero_sample_not_reported [OF h, of env0 "playing0\<lparr>progress := 50000000\<rparr>"]
    by (simp add: playing0_def initial_def)
qed


section \<open>Play after stop\<close>

text \<open>
  C5. \<^verbatim>\<open>play\<close> does not read \<^verbatim>\<open>isPlaybackStopped\<close>: in any session, stopped or
  not, a call resumes the engine when one is attached, sends a start report when the
  render its callback captured has the item and the api client, the one independently of
  the other, and leaves the flag as it is. The flag only suppresses the handling of
  progress samples: while it is set a progress callback changes nothing, and apart from
  the value of the flag itself, what any other operation of the player does is the same
  whatever the flag.
\<close>

theorem play_ignores_stopped:
  "trace (play e st) = trace st @ (if videoRef st then [EngineResume] else [])
                         @ (if loaded e then [Report (startReport e)] else [])
   \<and> isPlaybackStopped (play e st) = isPlaybackStopped st
   \<and> (isPlaybackStopped st \<longrightarrow> onProgress e d st = st)
   \<and> ((\<forall>d. ev \<noteq> Progress d) \<longrightarrow>
        (step e ev (st\<lparr>isPlaybackStopped := b\<rparr>))\<lparr>isPlaybackStopped := c\<rparr>
          = (step e ev st)\<lparr>isPlaybackStopped := c\<rparr>)"
  using trace_play [of e st] play_keeps_stopped [of e st] onProgress_stopped [of st e d]
    stopped_flag_only_progress [where ev = ev and e = e and st = st and b = b and c = c]
  by blast

text \<open>Stop, then play: the engine is resumed and a start report goes out.\<close>

theorem play_after_stop_counterexample:
  "isPlaybackStopped (stop env0 playing0)
   \<and> trace (play firstRender (stop env0 playing0))
       = trace (stop env0 playing0) @ [EngineResume, Report (startReport firstRender)]"
  by (simp add: handler_defs session_defs)

text \<open>The stopped session of the concrete example: play still resumes and reports, a
  progress sample changes nothing.\<close>

theorem play_ignores_stopped_witness:
  "isPlaybackStopped (stop env0 playing0) \<and> videoRef (stop env0 playing0) \<and> loaded firstRender
   \<and> trace (play firstRender (stop env0 playing0))
       = trace (stop env0 playing0) @ [EngineResume, Report (startReport firstRender)]
   \<and> isPlaybackStopped (play firstRender (stop env0 playing0))
   \<and> onProgress env0 sample5 (stop env0 playing0) = stop env0 playing0
   \<and> (step firstRender Play (playing0\<lparr>isPlaybackStopped := True\<rparr>))\<lparr>isPlaybackStopped := False\<rparr>
       = (step firstRender Play playing0)\<lparr>isPlaybackStopped := False\<rparr>"
proof -
  have h1: "isPlaybackStopped (stop env0 playing0)"
    and h2: "videoRef (stop env0 playing0)"
    by (simp_all add: handler_defs session_defs)
  have a: "\<forall>d. Play \<noteq> Progress d" by simp
  note t1 = play_ignores_stopped [where e = firstRender and st = "stop env0 playing0" and ev = Play]
  note t2 = play_ignores_stopped [where e = env0 and st = "stop env0 playing0" and d = sample5 and ev = Play]
  note t3 = play_ignores_stopped
      [where e = firstRender and st = playing0 and ev = Play and b = True and c = False]
  show ?thesis
    using t1 t2 t3 h1 h2 a
    by (simp add: loaded_firstRender)
qed


section \<open>Start position\<close>

text \<open>
  C6. For an item with \<^verbatim>\<open>PlaybackPositionTicks = 1200000000\<close> the start position
  handed to the engine is 120000, the ticks divided by 10000 (milliseconds), in the
  transcoding player and in the video player component alike.
\<close>

theorem start_position_milliseconds:
  assumes "item_PlaybackPositionTicks (Some i) = Some 1200000000" and "u \<noteq> []"
  shows "map_option startPosition (useVideoSource (Some i) True poster (Some u)) = Some 120000
       \<and> VideoPlayer_startPosition (Some i) = 120000"
  using assms
  by (simp add: useVideoSource_def VideoPlayer_startPosition_def truthy_int_def Math_round_numeral)

text \<open>The start position of the concrete item is 120000, not 12000.\<close>

theorem start_position_counterexample:
  "map_option startPosition
     (useVideoSource (Some item0) True None (Some ''http://host/videos/item-1/master.m3u8''))
     \<noteq> Some 12000
   \<and> VideoPlayer_startPosition (Some item0) \<noteq> 12000"
  by (simp add: useVideoSource_def VideoPlayer_startPosition_def item0_def truthy_int_def
        item_PlaybackPositionTicks_def Math_round_numeral)

text \<open>The concrete item.\<close>

theorem start_position_milliseconds_witness:
  "item_PlaybackPositionTicks (Some item0) = Some 1200000000
   \<and> ''http://host/videos/item-1/master.m3u8'' \<noteq> []
   \<and> map_option startPosition
        (useVideoSource (Some item0) True None (Some ''http://host/videos/item-1/master.m3u8''))
        = Some 120000"
proof -
  have h1: "item_PlaybackPositionTicks (Some item0) = Some 1200000000"
    by (simp add: item_PlaybackPositionTicks_def item0_def)
  have h2: "''http://host/videos/item-1/master.m3u8'' \<noteq> []" by simp
  show ?thesis using h1 h2 start_position_milliseconds [OF h1 h2, of None] by simp
qed


section \<open>The subtitle catalog\<close>

text \<open>
  C7. The subtitle catalog of a media source holds exactly the streams of type Subtitle
  with the text flag set, one per display title: it is the list of text subtitle streams
  in source order in which a stream is kept when no earlier one has its display title.
  So the catalog is a subsequence of the text subtitle streams, its display titles are
  distinct, every display title of a text subtitle stream occurs in it, and each entry
  is the first text subtitle stream with its display title.
\<close>

theorem subtitle_catalog:
  "uniqueTextSubs src = map Some (firstByTitle (textSubs src))
   \<and> textSubs (Some m) =
       filter (\<lambda>sub. Type (snd sub) = Some Subtitle \<and> IsTextSubtitleStream (snd sub) = Some True)
         (case MediaStreams m of None \<Rightarrow> [] | Some streams \<Rightarrow> streams)
   \<and> subseq (firstByTitle (textSubs src)) (textSubs src)
   \<and> distinct (map titleOf (firstByTitle (textSubs src)))
   \<and> titleOf ` set (firstByTitle (textSubs src)) = titleOf ` set (textSubs src)
   \<and> (\<forall>sub \<in> set (firstByTitle (textSubs src)).
         List.find (\<lambda>u. titleOf u = titleOf sub) (textSubs src) = Some sub)"
  by (simp add: uniqueTextSubs_def catalog_refines subseq_firstByTitle
        distinct_titles_firstByTitle titles_firstByTitle firstByTitle_is_first
        textSubs_def truthy_bool_def split: option.splits)

text \<open>Display titles English, English, Director's Commentary give two entries: the
  first English stream and the commentary.\<close>

theorem subtitle_catalog_witness:
  "map titleOf (textSubs (Some source0))
     = [Val ''English'', Val ''English'', Val ''Director's Commentary'']
   \<and> uniqueTextSubs (Some source0)
     = [Some (2, textSub 2 ''English''), Some (4, textSub 4 ''Director's Commentary'')]
   \<and> firstByTitle (textSubs (Some source0))
     = [(2, textSub 2 ''English''), (4, textSub 4 ''Director's Commentary'')]
   \<and> List.find (\<lambda>u. titleOf u = Val ''English'') (textSubs (Some source0))
     = Some (2, textSub 2 ''English'')"
proof -
  have titles: "map titleOf (textSubs (Some source0))
     = [Val ''English'', Val ''English'', Val ''Director's Commentary'']"
    by (simp add: textSubs_source0 textSub_def)
  from subtitle_catalog [of "Some source0" source0]
  have refines: "uniqueTextSubs (Some source0) = map Some (firstByTitle (textSubs (Some source0)))"
    and first: "\<forall>sub \<in> set (firstByTitle (textSubs (Some source0))).
         List.find (\<lambda>u. titleOf u = titleOf sub) (textSubs (Some source0)) = Some sub"
    by blast+
  from refines have "map Some (firstByTitle (textSubs (Some source0)))
     = map Some [(2, textSub 2 ''English''), (4, textSub 4 ''Director's Commentary'')]"
    by (simp add: uniqueTextSubs_source0)
  then have cat: "firstByTitle (textSubs (Some source0))
     = [(2, textSub 2 ''English''), (4, textSub 4 ''Director's Commentary'')]"
    by (simp only: inj_map_eq_map [OF inj_Some])
  from first cat have "List.find (\<lambda>u. titleOf u = titleOf (2, textSub 2 ''English''))
      (textSubs (Some source0)) = Some (2, textSub 2 ''English'')"
    by simp
  then have "List.find (\<lambda>u. titleOf u = Val ''English'') (textSubs (Some source0))
     = Some (2, textSub 2 ''English'')"
    by (simp add: textSub_def)
  with titles cat show ?thesis by (simp add: uniqueTextSubs_source0)
qed


section \<open>Initial subtitle selection\<close>

text \<open>
  C8. The specification has the controller find the stream with the requested index,
  find its position within the deduplicated catalog and select that position once. The
  code looks the stream up among all text subtitle streams but asks the deduplicated
  catalog for its position. Launched with subtitle index 3, the second of two text
  subtitle streams called English, the stream is found, the catalog holds only the first
  English stream and the commentary, \<^verbatim>\<open>indexOf\<close> answers -1, and -1 is what the
  discovery event selects, once; later discovery events select nothing more.
\<close>

theorem duplicate_title_selects_minus_one:
  "subtitleIndex env3 = Some (Num 3)
   \<and> chosenSubtitleTrack env3 = Some (3, textSub 3 ''English'')
   \<and> uniqueTextSubs (streamSource env3)
       = [Some (2, textSub 2 ''English''), Some (4, textSub 4 ''Director's Commentary'')]
   \<and> selectedTextTrack (onTextTracks env3 [] playing0) = Some (- 1)
   \<and> trace (run [(env3, TextTracks []), (env3, TextTracks [])] (onTextTracks env3 [] playing0))
       = [SelectTextTrack (- 1)]"
proof -
  have idx: "subtitleIndex env3 = Some (Num 3)"
    by (simp add: env3_def env0_def parse_defs)
  have chosen: "chosenSubtitleTrack env3 = Some (3, textSub 3 ''English'')"
    by (simp add: chosenSubtitleTrack_def streamSource_def env3_def env0_def stream0_def
          textSubs_source0 textSub_def indexMatches_def parse_defs)
  have src: "streamSource env3 = Some source0"
    by (simp add: streamSource_def env3_def env0_def stream0_def)
  have pos: "indexOf (uniqueTextSubs (Some source0)) (Some (3, textSub 3 ''English'')) = - 1"
    by (simp add: uniqueTextSubs_source0 indexOf_def textSub_def)
  have st1: "onTextTracks env3 [] playing0
       = playing0\<lparr>selectedTextTrack := Some (- 1), trace := [SelectTextTrack (- 1)]\<rparr>"
    using chosen src pos
    by (simp add: onTextTracks_def initialTextTrack_def setSelectedTextTrack_def
          playing0_def initial_def)
  have later: "trace (run [(env3, TextTracks []), (env3, TextTracks [])]
       (playing0\<lparr>selectedTextTrack := Some (- 1), trace := [SelectTextTrack (- 1)]\<rparr>))
       = [SelectTextTrack (- 1)]"
    using chosen by (simp add: onTextTracks_def initialTextTrack_def)
  from idx chosen src st1 later show ?thesis
    by (simp add: uniqueTextSubs_source0)
qed

text \<open>For a requested text subtitle stream that the catalog retains the code does what the
  specification says: with nothing selected yet, a discovery event selects the position
  of the stream in the catalog once, and later discovery events change nothing.\<close>

lemma retained_stream_selected_once:
  assumes "chosenSubtitleTrack e = Some c" and "selectedTextTrack st = None"
    and "\<forall>(e', ev) \<in> set evs. \<exists>ts. ev = TextTracks ts"
  shows "c \<in> set (textSubs (streamSource e))
       \<and> indexMatches (Index (snd c)) (subtitleIndex e)
       \<and> selectedTextTrack (onTextTracks e ts st)
           = Some (indexOf (uniqueTextSubs (streamSource e)) (Some c))
       \<and> trace (onTextTracks e ts st)
           = trace st @ [SelectTextTrack (indexOf (uniqueTextSubs (streamSource e)) (Some c))]
       \<and> selectedTextTrack (run evs (onTextTracks e ts st))
           = Some (indexOf (uniqueTextSubs (streamSource e)) (Some c))
       \<and> trace (run evs (onTextTracks e ts st)) = trace (onTextTracks e ts st)
       \<and> (c \<in> set (firstByTitle (textSubs (streamSource e))) \<longrightarrow>
            0 \<le> indexOf (uniqueTextSubs (streamSource e)) (Some c)
            \<and> nat (indexOf (uniqueTextSubs (streamSource e)) (Some c))
                < length (uniqueTextSubs (streamSource e))
            \<and> uniqueTextSubs (streamSource e)
                ! nat (indexOf (uniqueTextSubs (streamSource e)) (Some c)) = Some c)"
proof -
  let ?pos = "indexOf (uniqueTextSubs (streamSource e)) (Some c)"
  let ?st1 = "onTextTracks e ts st"
  from assms(1) have found: "c \<in> set (textSubs (streamSource e))"
    and matches: "indexMatches (Index (snd c)) (subtitleIndex e)"
    by (auto simp: chosenSubtitleTrack_def find_Some_iff)
  have st1: "?st1 = setSelectedTextTrack ?pos (st\<lparr>embededTextTracks := ts\<rparr>)"
    using assms(1,2) by (simp add: onTextTracks_def initialTextTrack_def)
  then have sel: "selectedTextTrack ?st1 = Some ?pos"
    and tr: "trace ?st1 = trace st @ [SelectTextTrack ?pos]"
    by (simp_all add: setSelectedTextTrack_def)
  from discovery_after_selection [OF assms(3) sel]
  have later: "selectedTextTrack (run evs ?st1) = Some ?pos" "trace (run evs ?st1) = trace ?st1"
    by simp_all
  have position: "0 \<le> ?pos \<and> nat ?pos < length (uniqueTextSubs (streamSource e))
       \<and> uniqueTextSubs (streamSource e) ! nat ?pos = Some c"
    if "c \<in> set (firstByTitle (textSubs (streamSource e)))"
  proof -
    from that have "Some c \<in> set (uniqueTextSubs (streamSource e))"
      by (simp add: uniqueTextSubs_def catalog_refines)
    then show ?thesis by (rule indexOf_mem)
  qed
  from found matches sel tr later position show ?thesis by blast
qed


section \<open>Downloads\<close>

text \<open>
  C9. Once the playback info is there, the download fails with \<open>NotDownloadable\<close>
  exactly when its first media source does not support direct play or the item may not
  be downloaded; otherwise it starts the download. A failure changes nothing, and no
  outcome touches the player. Without playback info the download does nothing: it
  neither fails nor starts.
\<close>

theorem download_not_downloadable:
  "(fst (downloadFile (Some info) it a) = Some NotDownloadable)
      = (\<not> sourceSupportsDirectPlay (firstSource info) \<or> \<not> truthy_bool (CanDownload it))
   \<and> (fst (downloadFile (Some info) it a) \<noteq> Some NotDownloadable \<longrightarrow>
        downloadFile (Some info) it a = (None, a\<lparr>downloadMedia := downloadMedia a @ [it]\<rparr>))
   \<and> (fst (downloadFile (Some info) it a) = Some NotDownloadable \<longrightarrow>
        snd (downloadFile (Some info) it a) = a)
   \<and> downloadFile None it a = (None, a)
   \<and> playback (snd (downloadFile info' it a)) = playback a"
  by (simp add: downloadFile_def split: option.splits)

text \<open>An item that may not be downloaded, before the playback info has arrived: no
  failure.\<close>

theorem download_guard_counterexample:
  "\<not> truthy_bool (CanDownload item0) \<and> downloadFile None item0 app0 = (None, app0)"
  by (simp add: downloadFile_def truthy_bool_def item0_def)

text \<open>With playback info: the item that may not be downloaded fails, the same item
  with the flag set starts a download.\<close>

theorem download_not_downloadable_witness:
  "fst (downloadFile (Some info0) item0 app0) = Some NotDownloadable
   \<and> snd (downloadFile (Some info0) item0 app0) = app0
   \<and> fst (downloadFile (Some info0) (item0\<lparr>CanDownload := Some True\<rparr>) app0) \<noteq> Some NotDownloadable
   \<and> downloadFile (Some info0) (item0\<lparr>CanDownload := Some True\<rparr>) app0
       = (None, app0\<lparr>downloadMedia := [item0\<lparr>CanDownload := Some True\<rparr>]\<rparr>)"
  using download_not_downloadable [of info0 item0 app0 None]
    download_not_downloadable [of info0 "item0\<lparr>CanDownload := Some True\<rparr>" app0 None]
  by (simp add: info0_def source0_def item0_def app0_def firstSource_def
        sourceSupportsDirectPlay_def truthy_bool_def)


section \<open>Stream indices in reports\<close>

text \<open>
  C10. In a session whose renders all carry the launch parameters \<open>a\<close> (audio) and
  \<open>s\<close> (subtitle), every start and progress report sent carries them the same way: an
  index is forwarded exactly when it parsed to a number other than 0, positive or
  negative, and is absent otherwise (0, not a number, or not given).
\<close>

theorem reports_forward_nonzero_indices:
  assumes "\<forall>(e, ev) \<in> set evs. audioIndexStr e = a \<and> subtitleIndexStr e = s"
    and "Report r \<in> set (trace (run evs initial))"
    and "kind r \<noteq> OnPlaybackStopped"
  shows "audioStreamIndex r = forwardIndex (launchIndex a)
       \<and> subtitleStreamIndex r = forwardIndex (launchIndex s)
       \<and> (\<forall>n v. (forwardIndex n = Some v) = (n = Some (Num v) \<and> v \<noteq> 0))"
proof -
  have "list_all (indices_ok a s) (trace (run evs initial))"
    using assms(1) by (rule indices_ok_run) (simp add: initial_def)
  with assms(2) have "indices_ok a s (Report r)" by (simp add: list_all_iff)
  with assms(3) show ?thesis by (simp add: indices_ok_def forwardIndex_Some)
qed

text \<open>Launched with subtitle index -1, the start report carries -1.\<close>

theorem negative_index_counterexample:
  "subtitleIndex firstRender = Some (Num (- 1))
   \<and> Report (startReport firstRender)
       \<in> set (trace (run [(env0, Attach True), (firstRender, Play)] initial))
   \<and> subtitleStreamIndex (startReport firstRender) = Some (- 1)"
  by (simp add: handler_defs session_defs parse_defs)

text \<open>Audio index 0 is absent from the progress report, subtitle index -1 is in it.\<close>

theorem reports_forward_nonzero_indices_witness:
  "audioIndexStr env0 = Some ''0'' \<and> subtitleIndexStr env0 = Some ''-1''
   \<and> Report (progressReport env0 50000000 True)
       \<in> set (trace (run [(env0, Attach True), (firstRender, Play), (env0, Progress sample5)]
                        initial))
   \<and> kind (progressReport env0 50000000 True) \<noteq> OnPlaybackStopped
   \<and> audioStreamIndex (progressReport env0 50000000 True) = None
   \<and> subtitleStreamIndex (progressReport env0 50000000 True) = Some (- 1)"
proof -
  let ?evs = "[(env0, Attach True), (firstRender, Play), (env0, Progress sample5)]"
  let ?r = "progressReport env0 50000000 True"
  have h1: "\<forall>(e, ev) \<in> set ?evs. audioIndexStr e = Some ''0'' \<and> subtitleIndexStr e = Some ''-1''"
    by (simp add: env0_def firstRender_def)
  have h2: "Report ?r \<in> set (trace (run ?evs initial))"
    by (simp add: handler_defs session_defs sample5_def secondsToTicks_def Math_round_numeral)
  have h3: "kind ?r \<noteq> OnPlaybackStopped" by simp
  have a: "forwardIndex (launchIndex (Some ''0'')) = None"
    and s: "forwardIndex (launchIndex (Some ''-1'')) = Some (- 1)"
    by (simp_all add: parse_defs)
  show ?thesis using h2 h3 reports_forward_nonzero_indices [OF h1 h2 h3] a s
    by (simp add: env0_def)
qed

end
